theory Spec2Isabelle
  imports Complex_Main "HOL-Library.Sublist"
begin

section \<open>The threat-pattern scanning engine of \<^verbatim>\<open>backend/src/security-engine.js\<close>\<close>

text \<open>
  A shallow embedding of \<^verbatim>\<open>loadThreats\<close>, \<^verbatim>\<open>scanMoveSource\<close>,
  \<^verbatim>\<open>performComprehensiveSecurityScan\<close> and \<^verbatim>\<open>analyzeEconomicSecurity\<close>.

  Conventions of the embedding.
  \<^item> A JavaScript string is a \<open>string\<close>; a \<open>char\<close> stands for one code unit in the
    range U+0000 .. U+00FF.
  \<^item> The catalog is typed as the persisted format \<^verbatim>\<open>{ "threats": ThreatRule[] }\<close>
    prescribes: strings where the engine reads strings, arrays of strings where it
    iterates. A field the engine tests for truthiness is an \<open>option\<close>
    (\<open>None\<close>: the field is absent or \<^verbatim>\<open>null\<close>).
  \<^item> Counts and scores are JavaScript numbers holding small integers; they are \<open>nat\<close>
    and \<open>int\<close> here. The one place where a fraction occurs, the product
    \<^verbatim>\<open>callPattern.length * 0.7\<close>, is modelled with its binary64 rounding written out.
\<close>

subsection \<open>String and array primitives\<close>

text \<open>\<^verbatim>\<open>String.prototype.startsWith\<close>.\<close>

fun js_startsWith :: "string \<Rightarrow> string \<Rightarrow> bool" where
  "js_startsWith s [] = True"
| "js_startsWith [] (p # ps) = False"
| "js_startsWith (c # cs) (p # ps) = (c = p \<and> js_startsWith cs ps)"

text \<open>\<^verbatim>\<open>String.prototype.includes\<close>: the argument occurs at some position.\<close>

fun js_includes :: "string \<Rightarrow> string \<Rightarrow> bool" where
  "js_includes [] sub = (sub = [])"
| "js_includes (c # cs) sub = (js_startsWith (c # cs) sub \<or> js_includes cs sub)"

text \<open>
  \<^verbatim>\<open>String.prototype.trim\<close> removes white space and line terminators from both ends.
  Of the code units below U+0100 these are TAB, LF, VT, FF, CR, SPACE and NBSP.
\<close>

definition js_whitespace :: "char \<Rightarrow> bool" where
  "js_whitespace c =
     (c = CHR 0x09 \<or> c = CHR 0x0A \<or> c = CHR 0x0B \<or> c = CHR 0x0C \<or> c = CHR 0x0D \<or>
      c = CHR 0x20 \<or> c = CHR 0xA0)"

definition js_trim :: "string \<Rightarrow> string" where
  "js_trim s = rev (dropWhile js_whitespace (rev (dropWhile js_whitespace s)))"

text \<open>\<^verbatim>\<open>source.split('\n')\<close>: the segments between line feeds; never an empty array.\<close>

fun js_split :: "string \<Rightarrow> string list" where
  "js_split [] = [[]]"
| "js_split (c # cs) =
     (if c = CHR 0x0A then [] # js_split cs
      else (case js_split cs of
              [] \<Rightarrow> [[c]]
            | l # ls \<Rightarrow> (c # l) # ls))"

text \<open>\<^verbatim>\<open>Array.prototype.join\<close>.\<close>

fun js_join :: "string \<Rightarrow> string list \<Rightarrow> string" where
  "js_join sep [] = []"
| "js_join sep [x] = x"
| "js_join sep (x # y # ys) = x @ sep @ js_join sep (y # ys)"

text \<open>
  \<^verbatim>\<open>Array.prototype.slice(start, end)\<close> for \<open>0 \<le> start\<close> and \<open>end \<le> length\<close>, the only
  way the engine calls it: the elements at positions \<open>start, ..., end - 1\<close>.
\<close>

definition js_slice :: "'a list \<Rightarrow> nat \<Rightarrow> nat \<Rightarrow> 'a list" where
  "js_slice xs start end = take (end - start) (drop start xs)"

text \<open>
  \<^verbatim>\<open>String.prototype.replace\<close> with a one-character string pattern: only the
  first occurrence is replaced.
\<close>

fun js_replace :: "string \<Rightarrow> char \<Rightarrow> string \<Rightarrow> string" where
  "js_replace [] p r = []"
| "js_replace (c # cs) p r = (if c = p then r @ cs else c # js_replace cs p r)"

text \<open>\<^verbatim>\<open>x || d\<close> on an optional string: an absent and an empty string are both falsy.\<close>

fun js_or :: "string option \<Rightarrow> string \<Rightarrow> string" where
  "js_or None d = d"
| "js_or (Some s) d = (if s = [] then d else s)"

subsection \<open>Data model\<close>

record pattern =
  function_name :: "string option"
  function_calls :: "string list option"
  missing_checks :: "string list option"

record threat =
  threat_id :: string
  threat_severity :: string
  threat_pattern :: "pattern option"
  threat_recommendation :: string
  threat_fix :: string
  threat_exploit_example :: "string option"
  threat_cve_reference :: "string option"

record catalog =
  threats :: "threat list"

text \<open>The \<^verbatim>\<open>line\<close> field of a result is a number or a string.\<close>

datatype line_ref = LineNumber nat | LineText string

record finding =
  finding_id :: string
  finding_severity :: string
  finding_line :: line_ref
  finding_function :: string
  finding_snippet :: string
  finding_missing_checks :: "string list"
  finding_recommendation :: string
  finding_fix :: string
  finding_exploit_example :: string
  finding_cve_reference :: string

record security_report =
  criticalIssues :: nat
  highIssues :: nat
  mediumIssues :: nat
  securityScore :: int
  findings :: "finding list"
  deployment_ready :: bool
  risk_level :: string

record risk =
  risk_type :: string
  risk_description :: string
  risk_severity :: string

record economic_report =
  risks :: "risk list"
  economic_risk_level :: string

subsection \<open>Scoring (\<^verbatim>\<open>performComprehensiveSecurityScan\<close>, after the scan)\<close>

definition count_severity :: "string \<Rightarrow> finding list \<Rightarrow> nat" where
  "count_severity sev fs = length (filter (\<lambda>f. finding_severity f = sev) fs)"

definition score :: "finding list \<Rightarrow> security_report" where
  "score fs =
     (let criticalIssues = count_severity ''critical'' fs;
          highIssues = count_severity ''high'' fs;
          mediumIssues = count_severity ''medium'' fs;
          securityScore =
            max 0 (100 - int criticalIssues * 40 - int highIssues * 20 - int mediumIssues * 10)
      in \<lparr> criticalIssues = criticalIssues,
           highIssues = highIssues,
           mediumIssues = mediumIssues,
           securityScore = securityScore,
           findings = fs,
           deployment_ready = (criticalIssues = 0 \<and> highIssues \<le> 1),
           risk_level =
             (if criticalIssues > 0 then ''CRITICAL''
              else if highIssues > 2 then ''HIGH''
              else if mediumIssues > 3 then ''MEDIUM''
              else ''LOW'') \<rparr>)"

subsection \<open>Economic risk (\<^verbatim>\<open>analyzeEconomicSecurity\<close>)\<close>

definition flash_loan_risk :: risk where
  "flash_loan_risk =
     \<lparr> risk_type = ''flash_loan_risk'',
       risk_description = ''Potential flash loan manipulation vulnerability'',
       risk_severity = ''high'' \<rparr>"

definition oracle_manipulation :: risk where
  "oracle_manipulation =
     \<lparr> risk_type = ''oracle_manipulation'',
       risk_description = ''Price oracle dependency detected - ensure TWAP protection'',
       risk_severity = ''medium'' \<rparr>"

text \<open>The two \<^verbatim>\<open>if\<close> statements run in sequence on the pair (risks, riskLevel).\<close>

definition analyzeEconomicSecurity :: "string \<Rightarrow> economic_report" where
  "analyzeEconomicSecurity source =
     (let st0 = ([], ''LOW'');
          st1 = (if js_includes source ''flash_'' \<or> js_includes source ''borrow''
                 then (fst st0 @ [flash_loan_risk], ''HIGH'')
                 else st0);
          st2 = (if js_includes source ''price'' \<or> js_includes source ''oracle''
                 then (fst st1 @ [oracle_manipulation],
                       if snd st1 = ''LOW'' then ''MEDIUM'' else snd st1)
                 else st1)
      in \<lparr> risks = fst st2, economic_risk_level = snd st2 \<rparr>)"

subsection \<open>Catalog loading (\<^verbatim>\<open>loadThreats\<close>)\<close>

text \<open>
  What \<^verbatim>\<open>JSON.parse(fs.readFileSync(THREATS_PATH, 'utf8'))\<close> does is the
  environment's business: it either throws (the file is missing, unreadable or not
  JSON) or yields the parsed document. \<open>loadThreats\<close> takes that outcome and is the
  \<^verbatim>\<open>try\<close>/\<^verbatim>\<open>catch\<close> around it.
\<close>

datatype load_error = ReadFailed string | ParseFailed string

fun loadThreats :: "load_error + catalog \<Rightarrow> catalog" where
  "loadThreats (Inr doc) = doc"
| "loadThreats (Inl err) = \<lparr> threats = [] \<rparr>"

subsection \<open>The line/context matcher (\<^verbatim>\<open>scanMoveSource\<close>, first half of the loop body)\<close>

text \<open>The filter that builds \<^verbatim>\<open>lines\<close> keeps a line iff this predicate is false.\<close>

definition comment_line :: "string \<Rightarrow> bool" where
  "comment_line line =
     (\<not> (\<not> js_startsWith (js_trim line) ''//'' \<and> \<not> js_startsWith (js_trim line) ''///''))"

definition source_lines :: "string \<Rightarrow> string list" where
  "source_lines source = filter (\<lambda>line. \<not> comment_line line) (js_split source)"

text \<open>
  \<^verbatim>\<open>lines.slice(Math.max(0, idx - 5), Math.min(lines.length, idx + 10)).join('\n')\<close>.
  The subtraction is on integers and can be negative before \<^verbatim>\<open>Math.max\<close>.
\<close>

definition context_window :: "string list \<Rightarrow> nat \<Rightarrow> string" where
  "context_window lines idx =
     js_join [CHR 0x0A]
       (js_slice lines (nat (max 0 (int idx - 5))) (min (length lines) (idx + 10)))"

text \<open>The body of \<^verbatim>\<open>missing_checks.forEach\<close>: what one entry pushes onto \<^verbatim>\<open>missing\<close>.\<close>

definition line_check :: "string \<Rightarrow> string \<Rightarrow> string list" where
  "line_check context mc =
     (if mc = ''signer_check'' \<and> \<not> js_includes context ''tx_context::sender''
           \<and> \<not> js_includes context ''signer::''
      then [''signer_check''] else []) @
     (if mc = ''max_supply_check'' \<and> \<not> js_includes context ''MAX_SUPPLY''
           \<and> \<not> js_includes context ''total_supply''
      then [''max_supply_check''] else []) @
     (if mc = ''reentrancy_guard'' \<and> \<not> js_includes context ''reentrancy_guard''
           \<and> \<not> js_includes context ''ReentrancyGuard''
      then [''reentrancy_guard''] else []) @
     (if mc = ''type_verification'' \<and> \<not> js_includes context ''assert!''
           \<and> \<not> js_includes context ''dynamic_field::exists_with_type''
      then [''type_verification''] else [])"

definition line_missing :: "string list option \<Rightarrow> string \<Rightarrow> string list" where
  "line_missing mcs context =
     (case mcs of
        None \<Rightarrow> []
      | Some cs \<Rightarrow> concat (map (line_check context) cs))"

text \<open>The body of \<^verbatim>\<open>lines.forEach((ln, idx) => ...)\<close>: the results pushed at one line.\<close>

definition match_line :: "threat \<Rightarrow> pattern \<Rightarrow> string \<Rightarrow> string list \<Rightarrow> nat \<Rightarrow> string \<Rightarrow> finding list" where
  "match_line t p fname lines idx line =
     (if js_includes line fname then
        (let context = context_window lines idx;
             missing = line_missing (missing_checks p) context
         in if length missing > 0 then
              [\<lparr> finding_id = threat_id t,
                 finding_severity = threat_severity t,
                 finding_line = LineNumber (idx + 1),
                 finding_function = fname,
                 finding_snippet = js_trim line,
                 finding_missing_checks = missing,
                 finding_recommendation = threat_recommendation t,
                 finding_fix = threat_fix t,
                 finding_exploit_example = js_or (threat_exploit_example t) ''Unknown'',
                 finding_cve_reference = js_or (threat_cve_reference t) ''None'' \<rparr>]
            else [])
      else [])"

text \<open>
  \<^verbatim>\<open>if (t.pattern && t.pattern.function_name) { ... }\<close>: an empty function name is
  falsy, like an absent one.
\<close>

definition function_findings :: "threat \<Rightarrow> string list \<Rightarrow> finding list" where
  "function_findings t lines =
     (case threat_pattern t of
        None \<Rightarrow> []
      | Some p \<Rightarrow>
          (case function_name p of
             None \<Rightarrow> []
           | Some fname \<Rightarrow>
               if fname = [] then []
               else concat (map (\<lambda>(idx, line). match_line t p fname lines idx line)
                              (enumerate 0 lines))))"

subsection \<open>The call-flow matcher (\<^verbatim>\<open>scanMoveSource\<close>, second half of the loop body)\<close>

text \<open>
  \<^verbatim>\<open>foundCalls >= callPattern.length * 0.7\<close> is a comparison of binary64 numbers.
  The literal \<^verbatim>\<open>0.7\<close> denotes the double \<open>6305039478318694 / 2^53\<close>. For a length
  \<open>n\<close> (below \<open>2^53\<close>, so a double itself) the product is the exact rational
  \<open>n * 6305039478318694 / 2^53\<close> rounded to 53 significant bits, ties to even.
  All values below are numerators over the common denominator \<open>2^53\<close>.
\<close>

definition mantissa_0_7 :: nat where
  "mantissa_0_7 = 6305039478318694"

text \<open>How many low bits of a numerator do not fit into 53 significant bits.\<close>

function excess_bits :: "nat \<Rightarrow> nat" where
  "excess_bits p = (if p < 2 ^ 53 then 0 else Suc (excess_bits (p div 2)))"
  by pat_completeness auto
termination
  by (relation "measure (\<lambda>p. p)") auto

declare excess_bits.simps [simp del]

definition round_binary64 :: "nat \<Rightarrow> nat" where
  "round_binary64 p =
     (let s = excess_bits p;
          q = p div 2 ^ s;
          r = p mod 2 ^ s
      in if 2 ^ s < 2 * r \<or> (2 * r = 2 ^ s \<and> odd q) then (q + 1) * 2 ^ s else q * 2 ^ s)"

definition times_0_7 :: "nat \<Rightarrow> nat" where
  "times_0_7 n = round_binary64 (n * mantissa_0_7)"

definition threshold_reached :: "nat \<Rightarrow> nat \<Rightarrow> bool" where
  "threshold_reached foundCalls n = (times_0_7 n \<le> foundCalls * 2 ^ 53)"

definition found_calls :: "string \<Rightarrow> string list \<Rightarrow> nat" where
  "found_calls source callPattern = length (filter (\<lambda>call. js_includes source call) callPattern)"

definition activated :: "string \<Rightarrow> string list \<Rightarrow> bool" where
  "activated source callPattern =
     threshold_reached (found_calls source callPattern) (length callPattern)"

text \<open>The body of the second \<^verbatim>\<open>missing_checks.forEach\<close>, as a test on one entry.\<close>

definition call_check_missing :: "string \<Rightarrow> string \<Rightarrow> bool" where
  "call_check_missing source check =
     (\<not> js_includes source (js_replace check CHR ''_'' []) \<and> \<not> js_includes source check)"

definition call_missing :: "string list option \<Rightarrow> string \<Rightarrow> string list" where
  "call_missing mcs source =
     (case mcs of
        None \<Rightarrow> []
      | Some cs \<Rightarrow> filter (call_check_missing source) cs)"

definition call_flow_findings :: "threat \<Rightarrow> string \<Rightarrow> finding list" where
  "call_flow_findings t source =
     (case threat_pattern t of
        None \<Rightarrow> []
      | Some p \<Rightarrow>
          (case function_calls p of
             None \<Rightarrow> []
           | Some callPattern \<Rightarrow>
               if activated source callPattern then
                 (let missingChecks = call_missing (missing_checks p) source
                  in if length missingChecks > 0 then
                       [\<lparr> finding_id = threat_id t,
                          finding_severity = threat_severity t,
                          finding_line = LineText ''Multiple'',
                          finding_function = ''Call Pattern'',
                          finding_snippet = js_join '' + '' callPattern,
                          finding_missing_checks = missingChecks,
                          finding_recommendation = threat_recommendation t,
                          finding_fix = threat_fix t,
                          finding_exploit_example = js_or (threat_exploit_example t) ''Unknown'',
                          finding_cve_reference = js_or (threat_cve_reference t) ''None'' \<rparr>]
                     else [])
               else []))"

subsection \<open>The scan and the report\<close>

text \<open>
  \<^verbatim>\<open>threats.forEach\<close> pushes, rule by rule, the line results and then the call-flow
  result. \<open>scan_rules\<close> is \<^verbatim>\<open>scanMoveSource\<close> after the catalog is loaded;
  \<open>scanMoveSource\<close> takes the outcome of reading the catalog file.
\<close>

definition scan_rules :: "threat list \<Rightarrow> string \<Rightarrow> finding list" where
  "scan_rules ts source =
     (let lines = source_lines source
      in concat (map (\<lambda>t. function_findings t lines @ call_flow_findings t source) ts))"

definition scanMoveSource :: "load_error + catalog \<Rightarrow> string \<Rightarrow> finding list" where
  "scanMoveSource file source = scan_rules (threats (loadThreats file)) source"

definition performComprehensiveSecurityScan :: "load_error + catalog \<Rightarrow> string \<Rightarrow> security_report" where
  "performComprehensiveSecurityScan file code = score (scanMoveSource file code)"

subsection \<open>Auxiliary notions used to state the properties\<close>

text \<open>
  The literal substrings that the line matcher accepts as evidence of a check kind,
  read off the four \<^verbatim>\<open>if\<close> statements of its \<^verbatim>\<open>forEach\<close> body. A kind
  the body does not mention has no evidence strings.
\<close>

definition line_evidence :: "string \<Rightarrow> string list" where
  "line_evidence mc =
     (if mc = ''signer_check'' then [''tx_context::sender'', ''signer::'']
      else if mc = ''max_supply_check'' then [''MAX_SUPPLY'', ''total_supply'']
      else if mc = ''reentrancy_guard'' then [''reentrancy_guard'', ''ReentrancyGuard'']
      else if mc = ''type_verification'' then [''assert!'', ''dynamic_field::exists_with_type'']
      else [])"


text \<open>A name with every underscore removed.\<close>

definition strip_underscores :: "string \<Rightarrow> string" where
  "strip_underscores check = filter (\<lambda>c. c \<noteq> CHR ''_'') check"

text \<open>
  The presence rule for the call-flow matcher in the words of the specification:
  a check is present if the source contains one of the evidence strings of the line
  matcher, or the name of the check with its underscores stripped, or the name itself.
\<close>

definition spec_call_check_present :: "string \<Rightarrow> string \<Rightarrow> bool" where
  "spec_call_check_present source check =
     (list_ex (js_includes source) (line_evidence check)
      \<or> js_includes source (strip_underscores check)
      \<or> js_includes source check)"

text \<open>
  The context window in the words of the specification: the 5 lines before through the
  10 lines after the matched line, clamped to the bounds.
\<close>

definition spec_context_window :: "string list \<Rightarrow> nat \<Rightarrow> string" where
  "spec_context_window lines idx =
     js_join [CHR 0x0A] (js_slice lines (idx - 5) (min (length lines) (idx + 11)))"

text \<open>The source text and the catalog rule of the open-mint scenario.\<close>

definition mint_source :: string where
  "mint_source =
     ''public fun mint(recipient: address, amount: u64, ctx: &mut TxContext) { let coin = coin::mint(amount); transfer::public_transfer(coin, recipient); }''"

definition open_mint_pattern :: pattern where
  "open_mint_pattern =
     \<lparr> function_name = Some ''mint'', function_calls = None,
       missing_checks = Some [''signer_check''] \<rparr>"

text \<open>Example rules and sources at which the properties below are instantiated.\<close>

definition flash_pattern :: pattern where
  "flash_pattern =
     \<lparr> function_name = None,
       function_calls = Some [''flash_swap'', ''get_price'', ''repay''],
       missing_checks = Some [''signer_check''] \<rparr>"

definition flash_rule :: threat where
  "flash_rule =
     \<lparr> threat_id = ''flashloan_price_oracle_exploit'',
       threat_severity = ''critical'',
       threat_pattern = Some flash_pattern,
       threat_recommendation = ''Require a TWAP oracle'',
       threat_fix = ''add a signer check'',
       threat_exploit_example = None,
       threat_cve_reference = None \<rparr>"



definition open_mint_rule :: threat where
  "open_mint_rule =
     \<lparr> threat_id = ''open_mint_function'',
       threat_severity = ''high'',
       threat_pattern = Some open_mint_pattern,
       threat_recommendation = ''Restrict minting to the owner'',
       threat_fix = ''add a signer check'',
       threat_exploit_example = None,
       threat_cve_reference = None \<rparr>"

definition far_evidence_lines :: "string list" where
  "far_evidence_lines =
     [''public fun mint(a: u64) {'',
      ''  let b1 = a;'',
      ''  let b2 = a;'',
      ''  let b3 = a;'',
      ''  let b4 = a;'',
      ''  let b5 = a;'',
      ''  let b6 = a;'',
      ''  let b7 = a;'',
      ''  let b8 = a;'',
      ''}'',
      ''fun owner(s: &signer): address { signer::address_of(s) }'']"

definition commented_source :: string where
  "commented_source = ''// how to mint'' @ [CHR 0x0A] @ ''public fun mint(a: u64) {}''"

text \<open>
  The same function laid out as in the unit test \<^verbatim>\<open>should detect open mint function
  vulnerability\<close>: a template literal that starts with a line feed and is indented.
\<close>

definition mint_test_lines :: "string list" where
  "mint_test_lines =
     ['''',
      ''        public fun mint(recipient: address, amount: u64, ctx: &mut TxContext) {'',
      ''          let coin = coin::mint(amount);'',
      ''          transfer::public_transfer(coin, recipient);'',
      ''        }'',
      ''      '']"

definition guard_pattern :: pattern where
  "guard_pattern =
     \<lparr> function_name = None,
       function_calls = Some [''flash_swap'', ''get_price'', ''repay''],
       missing_checks = Some [''slippage_guard'', ''oracle_update_guard''] \<rparr>"

definition guard_rule :: threat where
  "guard_rule =
     \<lparr> threat_id = ''flashloan_without_guards'',
       threat_severity = ''high'',
       threat_pattern = Some guard_pattern,
       threat_recommendation = ''Bound the slippage'',
       threat_fix = ''add a slippage guard'',
       threat_exploit_example = None,
       threat_cve_reference = None \<rparr>"

section \<open>Properties\<close>

subsection \<open>Scoring\<close>

lemma count_severity_drop_low:
  "sev \<noteq> ''low'' \<Longrightarrow>
   count_severity sev (filter (\<lambda>f. finding_severity f \<noteq> ''low'') fs) = count_severity sev fs"
  unfolding count_severity_def
  by (induction fs) auto

text \<open>
  Claim C1. For every finding list the report's counts are the numbers of findings
  whose severity is \<open>critical\<close>, \<open>high\<close> and \<open>medium\<close>, and its score is
  \<open>max 0 (100 - 40 c - 20 h - 10 m)\<close> for these counts \<open>c\<close>, \<open>h\<close>, \<open>m\<close>. Deleting
  the low findings leaves the score unchanged, and the score lies between 0 and 100.
  The risk level is CRITICAL if \<open>c > 0\<close>, else HIGH if \<open>h > 2\<close>, else MEDIUM if
  \<open>m > 3\<close>, else LOW. The report is deployment ready iff \<open>c = 0\<close> and \<open>h \<le> 1\<close>;
  the empty finding list is deployment ready at level LOW.
  \<^verbatim>\<open>performComprehensiveSecurityScan\<close> is this report on the findings of the scan.
\<close>

theorem C1_score_report:
  "criticalIssues (score fs) = length (filter (\<lambda>f. finding_severity f = ''critical'') fs)
   \<and> highIssues (score fs) = length (filter (\<lambda>f. finding_severity f = ''high'') fs)
   \<and> mediumIssues (score fs) = length (filter (\<lambda>f. finding_severity f = ''medium'') fs)
   \<and> findings (score fs) = fs
   \<and> securityScore (score fs) =
       max 0 (100 - 40 * int (length (filter (\<lambda>f. finding_severity f = ''critical'') fs))
                  - 20 * int (length (filter (\<lambda>f. finding_severity f = ''high'') fs))
                  - 10 * int (length (filter (\<lambda>f. finding_severity f = ''medium'') fs)))
   \<and> securityScore (score (filter (\<lambda>f. finding_severity f \<noteq> ''low'') fs)) = securityScore (score fs)
   \<and> 0 \<le> securityScore (score fs) \<and> securityScore (score fs) \<le> 100
   \<and> risk_level (score fs) =
       (if length (filter (\<lambda>f. finding_severity f = ''critical'') fs) > 0 then ''CRITICAL''
        else if length (filter (\<lambda>f. finding_severity f = ''high'') fs) > 2 then ''HIGH''
        else if length (filter (\<lambda>f. finding_severity f = ''medium'') fs) > 3 then ''MEDIUM''
        else ''LOW'')
   \<and> deployment_ready (score fs) =
       (length (filter (\<lambda>f. finding_severity f = ''critical'') fs) = 0
        \<and> length (filter (\<lambda>f. finding_severity f = ''high'') fs) \<le> 1)
   \<and> deployment_ready (score []) \<and> risk_level (score []) = ''LOW''
   \<and> performComprehensiveSecurityScan file code = score (scanMoveSource file code)"
proof -
  have n: "criticalIssues (score fs) = length (filter (\<lambda>f. finding_severity f = ''critical'') fs)
     \<and> highIssues (score fs) = length (filter (\<lambda>f. finding_severity f = ''high'') fs)
     \<and> mediumIssues (score fs) = length (filter (\<lambda>f. finding_severity f = ''medium'') fs)
     \<and> findings (score fs) = fs"
    by (simp add: score_def Let_def count_severity_def)
  have a: "securityScore (score fs) =
       max 0 (100 - 40 * int (length (filter (\<lambda>f. finding_severity f = ''critical'') fs))
                  - 20 * int (length (filter (\<lambda>f. finding_severity f = ''high'') fs))
                  - 10 * int (length (filter (\<lambda>f. finding_severity f = ''medium'') fs)))" for fs
    by (simp add: score_def Let_def count_severity_def)
  have b: "securityScore (score (filter (\<lambda>f. finding_severity f \<noteq> ''low'') fs)) = securityScore (score fs)"
    using count_severity_drop_low [of "''critical''" fs] count_severity_drop_low [of "''high''" fs]
      count_severity_drop_low [of "''medium''" fs]
    by (simp add: score_def Let_def)
  have c: "0 \<le> securityScore (score fs) \<and> securityScore (score fs) \<le> 100"
    unfolding a by simp
  have d: "risk_level (score fs) =
       (if length (filter (\<lambda>f. finding_severity f = ''critical'') fs) > 0 then ''CRITICAL''
        else if length (filter (\<lambda>f. finding_severity f = ''high'') fs) > 2 then ''HIGH''
        else if length (filter (\<lambda>f. finding_severity f = ''medium'') fs) > 3 then ''MEDIUM''
        else ''LOW'')"
    by (simp add: score_def Let_def count_severity_def)
  have e: "deployment_ready (score fs) =
       (length (filter (\<lambda>f. finding_severity f = ''critical'') fs) = 0
        \<and> length (filter (\<lambda>f. finding_severity f = ''high'') fs) \<le> 1)"
    by (simp add: score_def Let_def count_severity_def)
  have f: "deployment_ready (score []) \<and> risk_level (score []) = ''LOW''"
    by (simp add: score_def Let_def count_severity_def)
  have g: "performComprehensiveSecurityScan file code = score (scanMoveSource file code)"
    by (simp add: performComprehensiveSecurityScan_def)
  from n a b c d e f g show ?thesis by blast
qed

subsection \<open>Economic risk\<close>

text \<open>
  Claim C10. \<open>analyzeEconomicSecurity\<close> is a total function of the source string. Its
  risk list holds one \<open>flash_loan_risk\<close> entry (severity high) iff the source contains
  \<open>flash_\<close> or \<open>borrow\<close>, followed by one \<open>oracle_manipulation\<close> entry (severity medium)
  iff the source contains \<open>price\<close> or \<open>oracle\<close>, and nothing else. The level is HIGH
  in the first case, otherwise MEDIUM in the second case, otherwise LOW. On the empty
  string the list is empty and the level is LOW.
\<close>

theorem C10_economic_report:
  "risks (analyzeEconomicSecurity source) =
     (if js_includes source ''flash_'' \<or> js_includes source ''borrow'' then [flash_loan_risk] else []) @
     (if js_includes source ''price'' \<or> js_includes source ''oracle'' then [oracle_manipulation] else [])
   \<and> economic_risk_level (analyzeEconomicSecurity source) =
     (if js_includes source ''flash_'' \<or> js_includes source ''borrow'' then ''HIGH''
      else if js_includes source ''price'' \<or> js_includes source ''oracle'' then ''MEDIUM''
      else ''LOW'')
   \<and> length (filter (\<lambda>r. risk_type r = ''flash_loan_risk'') (risks (analyzeEconomicSecurity source))) =
     (if js_includes source ''flash_'' \<or> js_includes source ''borrow'' then 1 else 0)
   \<and> length (filter (\<lambda>r. risk_type r = ''oracle_manipulation'') (risks (analyzeEconomicSecurity source))) =
     (if js_includes source ''price'' \<or> js_includes source ''oracle'' then 1 else 0)
   \<and> risk_severity flash_loan_risk = ''high'' \<and> risk_type flash_loan_risk = ''flash_loan_risk''
   \<and> risk_severity oracle_manipulation = ''medium'' \<and> risk_type oracle_manipulation = ''oracle_manipulation''
   \<and> analyzeEconomicSecurity [] = \<lparr> risks = [], economic_risk_level = ''LOW'' \<rparr>"
  by (simp add: analyzeEconomicSecurity_def Let_def flash_loan_risk_def oracle_manipulation_def)

subsection \<open>Strings\<close>

lemma js_startsWith_prefix: "js_startsWith s p = prefix p s"
  by (induction s p rule: js_startsWith.induct) auto

lemma js_includes_sublist: "js_includes s sub = sublist sub s"
  by (induction s) (auto simp: js_startsWith_prefix sublist_Cons_right)

subsection \<open>The activation threshold\<close>

text \<open>
  The rounded product stays on the grid of doubles around the exact product: it is
  less than one grid step below it, and no grid point above the exact product lies
  below the rounded one. For lengths below \<open>2^32\<close> (the bound on the length of a
  JavaScript array) the grid step is at most \<open>2^32 / 2^53\<close>, far smaller than the
  distance \<open>1 / 10\<close> between \<open>7 n / 10\<close> and the next smaller integer.
\<close>

lemma excess_bits_bound: "p < 2 ^ 53 * 2 ^ k \<Longrightarrow> excess_bits p \<le> k"
proof (induction k arbitrary: p)
  case 0
  then show ?case by (subst excess_bits.simps) simp
next
  case (Suc k)
  show ?case
  proof (cases "p < 2 ^ 53")
    case True
    then show ?thesis by (subst excess_bits.simps) simp
  next
    case False
    from Suc.prems have "p < (2 ^ 53 * 2 ^ k) * 2" by (simp only: power_Suc mult_ac)
    then have "p div 2 < 2 ^ 53 * 2 ^ k" by (rule less_mult_imp_div_less)
    then have "excess_bits (p div 2) \<le> k" by (rule Suc.IH)
    with False show ?thesis by (subst excess_bits.simps) simp
  qed
qed

lemma round_binary64_cases:
  fixes p :: nat
  defines "X \<equiv> 2 ^ excess_bits p"
  shows "round_binary64 p = (p div X) * X \<or> (round_binary64 p = (p div X + 1) * X \<and> p mod X \<noteq> 0)"
proof -
  have "X > 0" by (simp add: X_def)
  then show ?thesis
    unfolding round_binary64_def Let_def X_def[symmetric]
    by auto
qed

lemma round_binary64_lower: "p < round_binary64 p + 2 ^ excess_bits p"
proof -
  define X :: nat where "X = 2 ^ excess_bits p"
  have X: "X > 0" by (simp add: X_def)
  have "p = (p div X) * X + p mod X" by simp
  moreover have "p mod X < X" using X by simp
  ultimately have "p < (p div X) * X + X" by linarith
  moreover have "(p div X) * X \<le> round_binary64 p"
    using round_binary64_cases[of p] by (auto simp: X_def)
  ultimately show ?thesis by (simp add: X_def)
qed

lemma round_binary64_upper:
  assumes "2 ^ excess_bits p dvd M" and "p \<le> M"
  shows "round_binary64 p \<le> M"
proof -
  define X :: nat where "X = 2 ^ excess_bits p"
  have X: "X > 0" by (simp add: X_def)
  from assms(1) obtain k where M: "M = k * X" by (auto simp: X_def dvd_def mult.commute)
  have down: "(p div X) * X \<le> M"
    using assms(2) by (meson div_times_less_eq_dividend le_trans)
  consider "round_binary64 p = (p div X) * X"
    | "round_binary64 p = (p div X + 1) * X" "p mod X \<noteq> 0"
    using round_binary64_cases[of p] by (auto simp: X_def)
  then show ?thesis
  proof cases
    case 1
    with down show ?thesis by simp
  next
    case 2
    have "p \<noteq> k * X" using 2(2) by auto
    with assms(2) M have "p < k * X" by simp
    then have "p div X < k" using X by (simp add: div_less_iff_less_mult)
    then have "p div X + 1 \<le> k" by simp
    then have "(p div X + 1) * X \<le> k * X" by (rule mult_le_mono1)
    with 2(1) M show ?thesis by simp
  qed
qed

lemma threshold_reached_iff:
  assumes "n < 2 ^ 32"
  shows "threshold_reached f n \<longleftrightarrow> 7 * n \<le> 10 * f"
proof -
  define B :: nat where "B = 2 ^ 53"
  define p where "p = n * mantissa_0_7"
  define s where "s = excess_bits p"
  define R where "R = round_binary64 p"
  have m: "10 * mantissa_0_7 + 4 = 7 * B"
    by (simp add: mantissa_0_7_def B_def)
  have "n * (10 * mantissa_0_7 + 4) = n * (7 * B)"
    by (simp only: m)
  then have ten_p: "10 * p + 4 * n = 7 * (n * B)"
    by (simp add: p_def algebra_simps)
  have "mantissa_0_7 < 2 ^ 53" by (simp add: mantissa_0_7_def)
  then have "p \<le> n * 2 ^ 53" unfolding p_def by simp
  also have "\<dots> < 2 ^ 32 * 2 ^ 53" using assms by simp
  finally have "p < 2 ^ 53 * 2 ^ 32" by (simp only: mult.commute)
  then have s32: "s \<le> 32" unfolding s_def by (rule excess_bits_bound)
  then have X32: "(2::nat) ^ s \<le> 2 ^ 32" by (intro power_increasing) simp_all
  have small: "14 * (2::nat) ^ 32 \<le> B" by (simp add: B_def)
  have tr: "threshold_reached f n \<longleftrightarrow> R \<le> f * B"
    by (simp add: threshold_reached_def times_0_7_def R_def p_def B_def)
  show ?thesis
  proof
    assume "threshold_reached f n"
    then have "R \<le> f * B" by (simp only: tr)
    moreover have "p < R + 2 ^ s" unfolding R_def s_def by (rule round_binary64_lower)
    ultimately have "7 * (n * B) < 10 * (f * B) + B"
      using ten_p X32 assms small by linarith
    then have "(7 * n) * B < (10 * f + 1) * B" by (simp add: algebra_simps)
    then have "7 * n < 10 * f + 1" by (simp only: mult_less_cancel2)
    then show "7 * n \<le> 10 * f" by simp
  next
    assume "7 * n \<le> 10 * f"
    then have "(7 * n) * B \<le> (10 * f) * B" by (rule mult_le_mono1)
    then have "7 * (n * B) \<le> 10 * (f * B)" by (simp only: mult.assoc)
    with ten_p have "p \<le> f * B" by linarith
    moreover have "(2::nat) ^ s dvd 2 ^ 53"
      using s32 by (intro le_imp_power_dvd) simp
    then have "2 ^ s dvd f * B" unfolding B_def by (rule dvd_mult)
    ultimately have "R \<le> f * B"
      unfolding R_def s_def by (intro round_binary64_upper)
    then show "threshold_reached f n" by (simp only: tr)
  qed
qed

lemma ceiling_seven_tenths: "nat \<lceil>0.7 * real n\<rceil> \<le> f \<longleftrightarrow> 7 * n \<le> 10 * f"
proof -
  have "nat \<lceil>0.7 * real n\<rceil> \<le> f \<longleftrightarrow> \<lceil>0.7 * real n\<rceil> \<le> int f"
    by (rule nat_le_iff)
  also have "\<dots> \<longleftrightarrow> 0.7 * real n \<le> of_int (int f)"
    by (rule ceiling_le_iff)
  also have "\<dots> \<longleftrightarrow> 7 * real n \<le> 10 * real f" by auto
  also have "\<dots> \<longleftrightarrow> real (7 * n) \<le> real (10 * f)" by simp
  also have "\<dots> \<longleftrightarrow> 7 * n \<le> 10 * f" by (rule of_nat_le_iff)
  finally show ?thesis .
qed

lemma activated_iff:
  "length callPattern < 2 ^ 32 \<Longrightarrow>
   activated source callPattern \<longleftrightarrow> 7 * length callPattern \<le> 10 * found_calls source callPattern"
  unfolding activated_def by (rule threshold_reached_iff)

subsection \<open>Catalog loading\<close>

text \<open>
  Claim C9. When reading or parsing the catalog fails, \<open>loadThreats\<close> returns the
  empty rule set, so the scan returns normally with no finding; and a scan over an
  empty catalog, however obtained, returns the empty finding list.
\<close>

theorem C9_load_failure_empty_scan:
  "loadThreats (Inl err) = \<lparr> threats = [] \<rparr>
   \<and> scanMoveSource (Inl err) source = []
   \<and> scanMoveSource (Inr \<lparr> threats = [] \<rparr>) source = []
   \<and> scan_rules [] source = []"
  by (simp add: scanMoveSource_def scan_rules_def)

subsection \<open>The call-flow matcher\<close>

lemma js_replace_single:
  "length (filter (\<lambda>c. c = CHR ''_'') check) \<le> 1 \<Longrightarrow>
   js_replace check CHR ''_'' [] = strip_underscores check"
  unfolding strip_underscores_def
proof (induction check)
  case Nil
  then show ?case by simp
next
  case (Cons c cs)
  show ?case
  proof (cases "c = CHR ''_''")
    case True
    with Cons.prems have "filter (\<lambda>c. c = CHR ''_'') cs = []" by simp
    then have "filter (\<lambda>c. c \<noteq> CHR ''_'') cs = cs"
      by (induction cs) (auto split: if_splits)
    with True show ?thesis by simp
  next
    case False
    with Cons show ?thesis by simp
  qed
qed

lemma call_flow_findings_activated:
  assumes "threat_pattern t = Some p"
    and "function_calls p = Some callPattern"
    and "activated source callPattern"
  shows "call_flow_findings t source =
     (if call_missing (missing_checks p) source = [] then []
      else [\<lparr> finding_id = threat_id t,
              finding_severity = threat_severity t,
              finding_line = LineText ''Multiple'',
              finding_function = ''Call Pattern'',
              finding_snippet = js_join '' + '' callPattern,
              finding_missing_checks = call_missing (missing_checks p) source,
              finding_recommendation = threat_recommendation t,
              finding_fix = threat_fix t,
              finding_exploit_example = js_or (threat_exploit_example t) ''Unknown'',
              finding_cve_reference = js_or (threat_cve_reference t) ''None'' \<rparr>])"
  using assms by (simp add: call_flow_findings_def Let_def)

lemma flash_rule_pattern: "threat_pattern flash_rule = Some flash_pattern"
  by (simp add: flash_rule_def)

lemma flash_pattern_calls: "function_calls flash_pattern = Some [''flash_swap'', ''get_price'', ''repay'']"
  by (simp add: flash_pattern_def)

lemma flash_pattern_checks: "missing_checks flash_pattern = Some [''signer_check'']"
  by (simp add: flash_pattern_def)

lemma flash_activated_plain:
  "activated ''flash_swap(); get_price(); repay();'' [''flash_swap'', ''get_price'', ''repay'']"
  by (simp add: activated_iff found_calls_def)

lemma flash_activated_named:
  "activated ''flash_swap(); get_price(); repay(); signercheck'' [''flash_swap'', ''get_price'', ''repay'']"
  by (simp add: activated_iff found_calls_def)

lemma flash_activated_sender:
  "activated ''flash_swap(); get_price(); repay(tx_context::sender(ctx));''
     [''flash_swap'', ''get_price'', ''repay'']"
  by (simp add: activated_iff found_calls_def)

lemma call_flow_findings_not_activated:
  "\<not> activated source callPattern \<Longrightarrow> threat_pattern t = Some p \<Longrightarrow>
   function_calls p = Some callPattern \<Longrightarrow> call_flow_findings t source = []"
  by (simp add: call_flow_findings_def)

text \<open>
  Claim C2. A call-flow rule with \<open>N\<close> tokens is activated iff at least
  \<open>\<lceil>0.7 N\<rceil>\<close> of its tokens occur as substrings of the whole source string (comment
  lines included), and activation is what gates the matcher: below the threshold the
  rule yields nothing, at or above it the result is decided by the evaluation of the
  declared checks. \<open>N\<close> is the length of a JavaScript array, hence below \<open>2^32\<close>.
\<close>

theorem C2_activation_threshold:
  assumes "threat_pattern t = Some p"
    and "function_calls p = Some callPattern"
    and "length callPattern < 2 ^ 32"
  shows "(activated source callPattern \<longleftrightarrow>
           nat \<lceil>0.7 * real (length callPattern)\<rceil> \<le> length (filter (js_includes source) callPattern))
     \<and> call_flow_findings t source =
         (if nat \<lceil>0.7 * real (length callPattern)\<rceil> \<le> length (filter (js_includes source) callPattern)
          then (if call_missing (missing_checks p) source = [] then []
                else [\<lparr> finding_id = threat_id t,
                        finding_severity = threat_severity t,
                        finding_line = LineText ''Multiple'',
                        finding_function = ''Call Pattern'',
                        finding_snippet = js_join '' + '' callPattern,
                        finding_missing_checks = call_missing (missing_checks p) source,
                        finding_recommendation = threat_recommendation t,
                        finding_fix = threat_fix t,
                        finding_exploit_example = js_or (threat_exploit_example t) ''Unknown'',
                        finding_cve_reference = js_or (threat_cve_reference t) ''None'' \<rparr>])
          else [])"
proof -
  have a: "activated source callPattern \<longleftrightarrow>
           nat \<lceil>0.7 * real (length callPattern)\<rceil> \<le> length (filter (js_includes source) callPattern)"
    using assms(3) by (simp only: activated_iff ceiling_seven_tenths found_calls_def)
  show ?thesis
  proof (cases "activated source callPattern")
    case True
    with a call_flow_findings_activated [OF assms(1,2) True] show ?thesis by simp
  next
    case False
    with a call_flow_findings_not_activated [OF False assms(1,2)] show ?thesis by simp
  qed
qed

theorem C2_activation_threshold_witness:
  "call_flow_findings flash_rule ''// flash_swap get_price repay''
     = [\<lparr> finding_id = ''flashloan_price_oracle_exploit'',
          finding_severity = ''critical'',
          finding_line = LineText ''Multiple'',
          finding_function = ''Call Pattern'',
          finding_snippet = ''flash_swap + get_price + repay'',
          finding_missing_checks = [''signer_check''],
          finding_recommendation = ''Require a TWAP oracle'',
          finding_fix = ''add a signer check'',
          finding_exploit_example = ''Unknown'',
          finding_cve_reference = ''None'' \<rparr>]
   \<and> activated ''// flash_swap get_price repay'' [''flash_swap'', ''get_price'', ''repay'']
   \<and> call_flow_findings flash_rule ''flash_swap(); get_price();'' = []
   \<and> \<not> activated ''flash_swap(); get_price();'' [''flash_swap'', ''get_price'', ''repay'']"
proof -
  have l: "length [''flash_swap'', ''get_price'', ''repay''] < (2::nat) ^ 32" by simp
  have m: "call_missing (missing_checks flash_pattern) ''// flash_swap get_price repay'' = [''signer_check'']"
    by (simp add: flash_pattern_checks call_missing_def call_check_missing_def)
  have f: "threat_id flash_rule = ''flashloan_price_oracle_exploit''
      \<and> threat_severity flash_rule = ''critical''
      \<and> threat_recommendation flash_rule = ''Require a TWAP oracle''
      \<and> threat_fix flash_rule = ''add a signer check''
      \<and> threat_exploit_example flash_rule = None
      \<and> threat_cve_reference flash_rule = None"
    by (simp add: flash_rule_def)
  note w1 = C2_activation_threshold [OF flash_rule_pattern flash_pattern_calls l,
      of "''// flash_swap get_price repay''"]
  note w2 = C2_activation_threshold [OF flash_rule_pattern flash_pattern_calls l,
      of "''flash_swap(); get_price();''"]
  have c1: "nat \<lceil>0.7 * real (length [''flash_swap'', ''get_price'', ''repay''])\<rceil>
      \<le> length (filter (js_includes ''// flash_swap get_price repay'') [''flash_swap'', ''get_price'', ''repay''])"
    by simp
  have c2: "\<not> nat \<lceil>0.7 * real (length [''flash_swap'', ''get_price'', ''repay''])\<rceil>
      \<le> length (filter (js_includes ''flash_swap(); get_price();'') [''flash_swap'', ''get_price'', ''repay''])"
    by simp
  from w1 c1 have a1: "activated ''// flash_swap get_price repay'' [''flash_swap'', ''get_price'', ''repay'']"
    by blast
  from w2 c2 have a2: "\<not> activated ''flash_swap(); get_price();'' [''flash_swap'', ''get_price'', ''repay'']"
    by blast
  from conjunct2 [OF w1] have r1: "call_flow_findings flash_rule ''// flash_swap get_price repay''
     = [\<lparr> finding_id = ''flashloan_price_oracle_exploit'',
          finding_severity = ''critical'',
          finding_line = LineText ''Multiple'',
          finding_function = ''Call Pattern'',
          finding_snippet = ''flash_swap + get_price + repay'',
          finding_missing_checks = [''signer_check''],
          finding_recommendation = ''Require a TWAP oracle'',
          finding_fix = ''add a signer check'',
          finding_exploit_example = ''Unknown'',
          finding_cve_reference = ''None'' \<rparr>]"
    unfolding if_P [OF c1] m by (simp add: f)
  from conjunct2 [OF w2] have r2: "call_flow_findings flash_rule ''flash_swap(); get_price();'' = []"
    unfolding if_not_P [OF c2] .
  from r1 a1 r2 a2 show ?thesis by (intro conjI)
qed

lemma call_flow_missing_reported:
  assumes "threat_pattern t = Some p"
    and "function_calls p = Some callPattern"
    and "activated source callPattern"
    and "missing_checks p = Some cs"
  shows "concat (map finding_missing_checks (call_flow_findings t source))
           = filter (call_check_missing source) cs"
  by (simp add: call_flow_findings_activated [OF assms(1-3)] assms(4) call_missing_def)

text \<open>
  Claim C3, as amended. On an activated call-flow rule, a declared check whose name has
  at most one underscore is reported missing iff the whole source contains neither the
  name itself nor the name with its underscore stripped; it is decided present
  otherwise. The evidence strings of the line matcher play no part. When every declared
  check has at most one underscore, the reported list is the declared list filtered by
  this test.
\<close>

theorem C3_call_flow_presence:
  assumes "threat_pattern t = Some p"
    and "function_calls p = Some callPattern"
    and "activated source callPattern"
    and "missing_checks p = Some cs"
    and "check \<in> set cs"
    and "length (filter (\<lambda>c. c = CHR ''_'') check) \<le> 1"
  shows "(check \<in> set (concat (map finding_missing_checks (call_flow_findings t source)))
           \<longleftrightarrow> \<not> (js_includes source (strip_underscores check) \<or> js_includes source check))
     \<and> ((\<forall>c \<in> set cs. length (filter (\<lambda>c. c = CHR ''_'') c) \<le> 1) \<longrightarrow>
          concat (map finding_missing_checks (call_flow_findings t source)) =
            filter (\<lambda>c. \<not> (js_includes source (strip_underscores c) \<or> js_includes source c)) cs)"
proof -
  note r = call_flow_missing_reported [OF assms(1-4)]
  have a: "check \<in> set (concat (map finding_missing_checks (call_flow_findings t source)))
           \<longleftrightarrow> \<not> (js_includes source (strip_underscores check) \<or> js_includes source check)"
    unfolding r using assms(5,6) by (simp add: call_check_missing_def js_replace_single)
  have b: "concat (map finding_missing_checks (call_flow_findings t source)) =
            filter (\<lambda>c. \<not> (js_includes source (strip_underscores c) \<or> js_includes source c)) cs"
    if "\<forall>c \<in> set cs. length (filter (\<lambda>c. c = CHR ''_'') c) \<le> 1"
    unfolding r using that by (intro filter_cong) (auto simp: call_check_missing_def js_replace_single)
  from a b show ?thesis by blast
qed

theorem C3_call_flow_presence_witness:
  "''slippage_guard'' \<in> set (concat (map finding_missing_checks
      (call_flow_findings guard_rule ''flash_swap(); get_price(); repay();'')))
   \<and> ''slippage_guard'' \<notin> set (concat (map finding_missing_checks
      (call_flow_findings guard_rule ''flash_swap(); get_price(); repay(); slippageguard'')))"
proof -
  have p: "threat_pattern guard_rule = Some guard_pattern"
    by (simp add: guard_rule_def)
  have c: "function_calls guard_pattern = Some [''flash_swap'', ''get_price'', ''repay'']"
    by (simp add: guard_pattern_def)
  have k: "missing_checks guard_pattern = Some [''slippage_guard'', ''oracle_update_guard'']"
    by (simp add: guard_pattern_def)
  have m: "''slippage_guard'' \<in> set [''slippage_guard'', ''oracle_update_guard'']"
    by simp
  have u: "length (filter (\<lambda>c. c = CHR ''_'') ''slippage_guard'') \<le> 1"
    by simp
  have a2: "activated ''flash_swap(); get_price(); repay(); slippageguard'' [''flash_swap'', ''get_price'', ''repay'']"
    by (simp add: activated_iff found_calls_def)
  have s: "strip_underscores ''slippage_guard'' = ''slippageguard''"
    by (simp add: strip_underscores_def)
  have n1: "\<not> (js_includes ''flash_swap(); get_price(); repay();'' ''slippageguard''
            \<or> js_includes ''flash_swap(); get_price(); repay();'' ''slippage_guard'')"
    by simp
  have n2: "js_includes ''flash_swap(); get_price(); repay(); slippageguard'' ''slippageguard''"
    by simp
  from conjunct1 [OF C3_call_flow_presence [OF p c flash_activated_plain k m u]] n1
  have r1: "''slippage_guard'' \<in> set (concat (map finding_missing_checks
      (call_flow_findings guard_rule ''flash_swap(); get_price(); repay();'')))"
    unfolding s by blast
  from conjunct1 [OF C3_call_flow_presence [OF p c a2 k m u]] n2
  have r2: "''slippage_guard'' \<notin> set (concat (map finding_missing_checks
      (call_flow_findings guard_rule ''flash_swap(); get_price(); repay(); slippageguard'')))"
    unfolding s by blast
  from r1 r2 show ?thesis by (intro conjI)
qed

text \<open>
  The claim as stated fails where the source holds an evidence string of the line
  matcher but not the name of the check: the specification's rule finds
  \<open>signer_check\<close> present, the activated rule reports it missing.
\<close>

theorem C3_call_flow_presence_counterexample:
  "activated ''flash_swap(); get_price(); repay(tx_context::sender(ctx));''
     [''flash_swap'', ''get_price'', ''repay'']
   \<and> spec_call_check_present ''flash_swap(); get_price(); repay(tx_context::sender(ctx));'' ''signer_check''
   \<and> map finding_missing_checks
       (call_flow_findings flash_rule ''flash_swap(); get_price(); repay(tx_context::sender(ctx));'')
       = [[''signer_check'']]"
  by (simp add: flash_activated_sender spec_call_check_present_def line_evidence_def
        call_flow_findings_activated [OF flash_rule_pattern flash_pattern_calls flash_activated_sender]
        flash_pattern_checks call_missing_def call_check_missing_def)

text \<open>
  Claim C4, as amended. On an activated call-flow rule with at least one declared
  check missing, the matcher emits exactly one finding for the rule: its line is the
  string \<open>Multiple\<close>, its function is \<open>Call Pattern\<close>, its snippet is the call
  tokens joined by \<open> + \<close>, and it lists the missing checks. With no declared check
  missing it emits nothing, in particular when \<open>missing_checks\<close> is absent or empty.
\<close>

theorem C4_call_flow_finding:
  assumes "threat_pattern t = Some p"
    and "function_calls p = Some callPattern"
    and "activated source callPattern"
  shows "(call_missing (missing_checks p) source = [] \<or>
            length (call_flow_findings t source) = 1
            \<and> map finding_line (call_flow_findings t source) = [LineText ''Multiple'']
            \<and> map finding_function (call_flow_findings t source) = [''Call Pattern'']
            \<and> map finding_snippet (call_flow_findings t source) = [js_join '' + '' callPattern]
            \<and> map finding_missing_checks (call_flow_findings t source) = [call_missing (missing_checks p) source]
            \<and> map finding_id (call_flow_findings t source) = [threat_id t])
     \<and> (call_missing (missing_checks p) source \<noteq> [] \<or> call_flow_findings t source = [])
     \<and> (missing_checks p \<noteq> None \<or> call_flow_findings t source = [])
     \<and> (missing_checks p \<noteq> Some [] \<or> call_flow_findings t source = [])"
  by (auto simp: call_flow_findings_activated [OF assms] call_missing_def split: option.splits)

theorem C4_call_flow_finding_witness:
  "map finding_snippet (call_flow_findings flash_rule ''flash_swap(); get_price(); repay();'')
     = [''flash_swap + get_price + repay'']
   \<and> map finding_line (call_flow_findings flash_rule ''flash_swap(); get_price(); repay();'')
     = [LineText ''Multiple'']
   \<and> call_flow_findings flash_rule ''flash_swap(); get_price(); repay(); signercheck'' = []"
proof -
  have m1: "call_missing (missing_checks flash_pattern) ''flash_swap(); get_price(); repay();'' = [''signer_check'']"
    by (simp add: flash_pattern_checks call_missing_def call_check_missing_def)
  have m2: "call_missing (missing_checks flash_pattern) ''flash_swap(); get_price(); repay(); signercheck'' = []"
    by (simp add: flash_pattern_checks call_missing_def call_check_missing_def)
  show ?thesis
    using C4_call_flow_finding [OF flash_rule_pattern flash_pattern_calls flash_activated_plain]
      C4_call_flow_finding [OF flash_rule_pattern flash_pattern_calls flash_activated_named]
    by (simp add: m1 m2)
qed

text \<open>
  The claim as stated gives the line as \<open>multiple\<close>; the finding carries \<open>Multiple\<close>.
\<close>

theorem C4_call_flow_finding_counterexample:
  "activated ''flash_swap(); get_price(); repay();'' [''flash_swap'', ''get_price'', ''repay'']
   \<and> call_missing (missing_checks flash_pattern) ''flash_swap(); get_price(); repay();'' = [''signer_check'']
   \<and> length (call_flow_findings flash_rule ''flash_swap(); get_price(); repay();'') = 1
   \<and> map finding_line (call_flow_findings flash_rule ''flash_swap(); get_price(); repay();'')
       \<noteq> [LineText ''multiple'']"
  by (simp add: flash_activated_plain
        call_flow_findings_activated [OF flash_rule_pattern flash_pattern_calls flash_activated_plain]
        flash_pattern_checks call_missing_def call_check_missing_def)

subsection \<open>The line/context matcher\<close>



lemma line_check_evidence:
  "line_check ctxt mc =
     (if line_evidence mc \<noteq> [] \<and> \<not> list_ex (js_includes ctxt) (line_evidence mc) then [mc] else [])"
  by (simp add: line_check_def line_evidence_def)





text \<open>
  Written over several lines as in the unit test, the body line
  \<^verbatim>\<open>let coin = coin::mint(amount);\<close> contains the function name as well, and the rule
  reports both lines.
\<close>

lemma mint_test_source_lines:
  "source_lines (js_join [CHR 0x0A] mint_test_lines) = mint_test_lines"
  by (simp add: mint_test_lines_def source_lines_def comment_line_def js_trim_def js_whitespace_def)

lemma mint_test_layout_findings:
  "map finding_line (scan_rules [open_mint_rule] (js_join [CHR 0x0A] mint_test_lines))
     = [LineNumber 2, LineNumber 3]
   \<and> map finding_missing_checks (scan_rules [open_mint_rule] (js_join [CHR 0x0A] mint_test_lines))
     = [[''signer_check''], [''signer_check'']]"
  unfolding scan_rules_def Let_def mint_test_source_lines
  unfolding function_findings_def call_flow_findings_def open_mint_rule_def open_mint_pattern_def
  by (simp add: mint_test_lines_def match_line_def
      context_window_def js_slice_def line_missing_def line_check_def)

subsection \<open>Comment lines and line numbers\<close>

lemma js_split_not_Nil: "js_split s \<noteq> []"
  by (induction s) (auto split: list.splits)

lemma js_split_append: "js_split (a @ CHR 0x0A # b) = js_split a @ js_split b"
proof (induction a)
  case Nil
  then show ?case by simp
next
  case (Cons x xs)
  obtain l ls where "js_split xs = l # ls"
    using js_split_not_Nil [of xs] by (cases "js_split xs") auto
  with Cons show ?case by simp
qed

lemma js_split_single: "CHR 0x0A \<notin> set c \<Longrightarrow> js_split c = [c]"
  by (induction c) auto

lemma comment_line_iff: "comment_line c \<longleftrightarrow> js_startsWith (js_trim c) ''//''"
proof -
  have "prefix ''//'' ''///''" by simp
  then have "prefix ''///'' s \<Longrightarrow> prefix ''//'' s" for s :: string
    by (rule prefix_order.trans)
  then show ?thesis
    by (auto simp: comment_line_def js_startsWith_prefix)
qed

lemma source_lines_append:
  "source_lines (a @ CHR 0x0A # b) = source_lines a @ source_lines b"
  by (simp add: source_lines_def js_split_append)

lemma source_lines_comment:
  "comment_line c \<Longrightarrow> CHR 0x0A \<notin> set c \<Longrightarrow> source_lines c = []"
  by (simp add: source_lines_def js_split_single)

lemma function_findings_Nil: "function_findings t [] = []"
  by (simp add: function_findings_def split: option.splits)

lemma filter_index:
  assumes "i < length xs" and "P (xs ! i)"
  defines "k \<equiv> length (filter (\<lambda>x. \<not> P x) (take i xs))"
  shows "i - k < length (filter P xs) \<and> filter P xs ! (i - k) = xs ! i \<and> k \<le> i"
proof -
  have xs: "xs = take i xs @ xs ! i # drop (Suc i) xs"
    using assms(1) by (rule id_take_nth_drop)
  have "length (filter P (take i xs)) + k = length (take i xs)"
    unfolding k_def by (rule sum_length_filter_compl)
  also have "\<dots> = i" using assms(1) by simp
  finally have ik: "i - k = length (filter P (take i xs))" and "k \<le> i" by simp_all
  have f: "filter P xs = filter P (take i xs) @ xs ! i # filter P (drop (Suc i) xs)"
    by (subst xs) (simp add: assms(2))
  have "filter P xs ! (i - k) = xs ! i"
    unfolding ik by (subst f) simp
  moreover have "i - k < length (filter P xs)"
    unfolding ik by (subst f) simp
  ultimately show ?thesis using \<open>k \<le> i\<close> by simp
qed

lemma enumerate_nth: "enumerate 0 xs = map (\<lambda>i. (i, xs ! i)) [0..<length xs]"
  by (rule nth_equalityI) (simp_all add: nth_enumerate_eq)

lemma function_findings_by_index:
  assumes "threat_pattern t = Some p" and "function_name p = Some fname" and "fname \<noteq> []"
  shows "function_findings t lines =
           concat (map (\<lambda>idx. match_line t p fname lines idx (lines ! idx)) [0..<length lines])"
  using assms by (simp add: function_findings_def enumerate_nth comp_def)

lemma match_line_number:
  "f \<in> set (match_line t p fname lines idx line) \<Longrightarrow>
   finding_line f = LineNumber (idx + 1) \<and> finding_snippet f = js_trim line"
  by (auto simp: match_line_def Let_def split: if_splits)

lemma js_slice_nth: "b \<le> length xs \<Longrightarrow> js_slice xs a b = map (\<lambda>j. xs ! j) [a..<b]"
  by (auto simp: js_slice_def list_eq_iff_nth_eq)

lemma context_window_nth:
  "context_window lines idx =
     js_join [CHR 0x0A] (map (\<lambda>j. lines ! j) [idx - 5 ..< min (length lines) (idx + 10)])"
proof -
  have "nat (max 0 (int idx - 5)) = idx - 5" by simp
  then show ?thesis
    by (simp add: context_window_def js_slice_nth)
qed

lemma context_window_update:
  assumes "j + 5 < idx \<or> idx + 10 \<le> j"
  shows "context_window (lines[j := x]) idx = context_window lines idx"
proof -
  have "map (\<lambda>i. lines[j := x] ! i) [idx - 5 ..< min (length lines) (idx + 10)]
        = map (\<lambda>i. lines ! i) [idx - 5 ..< min (length lines) (idx + 10)]"
    using assms by (intro map_cong) auto
  then show ?thesis
    unfolding context_window_nth length_list_update by (rule arg_cong)
qed

lemma match_line_update:
  "j + 5 < idx \<or> idx + 10 \<le> j \<Longrightarrow>
   match_line t p fname (lines[j := x]) idx line = match_line t p fname lines idx line"
  by (simp add: match_line_def context_window_update)

lemma function_findings_line:
  assumes "f \<in> set (function_findings t lines)"
  shows "\<exists>idx < length lines. finding_line f = LineNumber (idx + 1)
           \<and> finding_snippet f = js_trim (lines ! idx)"
proof -
  have "threat_pattern t \<noteq> None"
  proof
    assume "threat_pattern t = None"
    then have "function_findings t lines = []" by (simp add: function_findings_def)
    with assms show False by simp
  qed
  then obtain p where p: "threat_pattern t = Some p" by auto
  have "function_name p \<noteq> None"
  proof
    assume "function_name p = None"
    with p have "function_findings t lines = []" by (simp add: function_findings_def)
    with assms show False by simp
  qed
  then obtain fname where n: "function_name p = Some fname" by auto
  have e: "fname \<noteq> []"
  proof
    assume "fname = []"
    with p n have "function_findings t lines = []" by (simp add: function_findings_def)
    with assms show False by simp
  qed
  from assms obtain idx where "idx < length lines"
    and "f \<in> set (match_line t p fname lines idx (lines ! idx))"
    unfolding function_findings_by_index [OF p n e] by auto
  then show ?thesis
    using match_line_number by blast
qed

lemma commented_split:
  "js_split commented_source = [''// how to mint'', ''public fun mint(a: u64) {}'']"
  by (simp add: commented_source_def)

lemma commented_first: "comment_line ''// how to mint''"
  by (simp add: comment_line_def js_trim_def js_whitespace_def)

lemma commented_second: "\<not> comment_line ''public fun mint(a: u64) {}''"
  by (simp add: comment_line_def js_trim_def js_whitespace_def)

lemma commented_findings:
  "map finding_line (function_findings open_mint_rule (source_lines commented_source)) = [LineNumber 1]"
  by (simp add: source_lines_def commented_split commented_first commented_second
      function_findings_def open_mint_rule_def open_mint_pattern_def match_line_def
      context_window_def js_slice_def line_missing_def line_check_def)

lemma far_lines_source: "source_lines (js_join [CHR 0x0A] far_evidence_lines) = far_evidence_lines"
  by (simp add: far_evidence_lines_def source_lines_def comment_line_def js_trim_def js_whitespace_def)

lemma far_window: "context_window far_evidence_lines 0 = js_join [CHR 0x0A] (butlast far_evidence_lines)"
  by (simp add: far_evidence_lines_def context_window_def js_slice_def)

lemma far_spec_window: "spec_context_window far_evidence_lines 0 = js_join [CHR 0x0A] far_evidence_lines"
  by (simp add: far_evidence_lines_def spec_context_window_def js_slice_def)

lemma far_findings:
  "map finding_missing_checks (function_findings open_mint_rule far_evidence_lines) = [[''signer_check'']]"
  unfolding function_findings_def open_mint_rule_def open_mint_pattern_def
  by (simp add: far_evidence_lines_def match_line_def
      context_window_def js_slice_def line_missing_def line_check_def)

text \<open>
  Claim C5. A line whose trimmed content starts with \<open>//\<close> or \<open>///\<close> is not among
  the scanned lines: no finding of a function-keyed rule has its snippet from such a
  line, and deleting the line from the source (in the middle, at the start or at the
  end) leaves the findings of every function-keyed rule unchanged, so the line neither
  triggers a match nor supplies evidence to a context window. A source that is only
  such a line yields no function-keyed finding.
\<close>

theorem C5_comment_lines_excluded:
  assumes "js_startsWith (js_trim c) ''//'' \<or> js_startsWith (js_trim c) ''///''"
    and "CHR 0x0A \<notin> set c"
  shows "function_findings t (source_lines (a @ [CHR 0x0A] @ c @ [CHR 0x0A] @ b))
           = function_findings t (source_lines (a @ [CHR 0x0A] @ b))
     \<and> function_findings t (source_lines (c @ [CHR 0x0A] @ b)) = function_findings t (source_lines b)
     \<and> function_findings t (source_lines (a @ [CHR 0x0A] @ c)) = function_findings t (source_lines a)
     \<and> function_findings t (source_lines c) = []
     \<and> (\<forall>l \<in> set (source_lines source). \<not> comment_line l)
     \<and> (\<forall>f \<in> set (function_findings t (source_lines source)).
           \<exists>l \<in> set (source_lines source). \<not> comment_line l \<and> finding_snippet f = js_trim l)"
proof -
  from assms(1) have "comment_line c"
    by (auto simp: comment_line_def)
  then have "source_lines c = []"
    using assms(2) by (rule source_lines_comment)
  then have del: "function_findings t (source_lines (a @ [CHR 0x0A] @ c @ [CHR 0x0A] @ b))
           = function_findings t (source_lines (a @ [CHR 0x0A] @ b))
     \<and> function_findings t (source_lines (c @ [CHR 0x0A] @ b)) = function_findings t (source_lines b)
     \<and> function_findings t (source_lines (a @ [CHR 0x0A] @ c)) = function_findings t (source_lines a)
     \<and> function_findings t (source_lines c) = []"
    by (simp add: source_lines_append function_findings_Nil)
  have kept: "\<forall>l \<in> set (source_lines source). \<not> comment_line l"
    by (simp add: source_lines_def)
  have "\<exists>l \<in> set (source_lines source). \<not> comment_line l \<and> finding_snippet f = js_trim l"
    if "f \<in> set (function_findings t (source_lines source))" for f
  proof -
    from function_findings_line [OF that] obtain idx
      where "idx < length (source_lines source)"
        and "finding_snippet f = js_trim (source_lines source ! idx)"
      by blast
    with kept show ?thesis
      using nth_mem by blast
  qed
  with del kept show ?thesis by blast
qed

theorem C5_comment_lines_excluded_witness:
  "function_findings open_mint_rule (source_lines commented_source)
     = function_findings open_mint_rule (source_lines ''public fun mint(a: u64) {}'')
   \<and> function_findings open_mint_rule (source_lines ''// public fun mint(a: u64) {}'') = []"
proof -
  have h1: "js_startsWith (js_trim ''// how to mint'') ''//'' \<or> js_startsWith (js_trim ''// how to mint'') ''///''"
    by (simp add: js_trim_def js_whitespace_def)
  have h2: "CHR 0x0A \<notin> set ''// how to mint''"
    by simp
  have g1: "js_startsWith (js_trim ''// public fun mint(a: u64) {}'') ''//''
      \<or> js_startsWith (js_trim ''// public fun mint(a: u64) {}'') ''///''"
    by (simp add: js_trim_def js_whitespace_def)
  have g2: "CHR 0x0A \<notin> set ''// public fun mint(a: u64) {}''"
    by simp
  from C5_comment_lines_excluded [OF h1 h2, of open_mint_rule "[]" "''public fun mint(a: u64) {}''"]
  have a: "function_findings open_mint_rule (source_lines (''// how to mint'' @ [CHR 0x0A] @ ''public fun mint(a: u64) {}''))
         = function_findings open_mint_rule (source_lines ''public fun mint(a: u64) {}'')"
    by (rule conjunct1 [OF conjunct2])
  from C5_comment_lines_excluded [OF g1 g2, of open_mint_rule "[]" "[]"]
  have b: "function_findings open_mint_rule (source_lines ''// public fun mint(a: u64) {}'') = []"
    by (rule conjunct1 [OF conjunct2 [OF conjunct2 [OF conjunct2]]])
  from a b show ?thesis
    unfolding commented_source_def by (intro conjI)
qed

text \<open>
  Claim C8, as amended. The line of a function-keyed finding is the 1-based position of
  the matched line in the comment-filtered sequence: a non-comment line at original
  position \<open>i + 1\<close> with \<open>k\<close> comment lines before it sits at filtered position
  \<open>i - k\<close> and is reported as line \<open>i + 1 - k\<close>. The context window is the filtered
  lines at positions \<open>idx - 5\<close> up to, but not including, \<open>min (length lines) (idx + 10)\<close>:
  the matched line, up to 5 lines before it and up to 9 after it. A filtered line farther
  away can be replaced by any text without changing what the match reports.
\<close>

theorem C8_filtered_line_numbers:
  assumes "i < length (js_split source)"
    and "\<not> comment_line (js_split source ! i)"
    and "k = length (filter comment_line (take i (js_split source)))"
  shows "k \<le> i \<and> i - k < length (source_lines source)
     \<and> source_lines source ! (i - k) = js_split source ! i
     \<and> (\<forall>f \<in> set (match_line t p fname (source_lines source) (i - k) (js_split source ! i)).
           finding_line f = LineNumber (i + 1 - k))
     \<and> (\<forall>f \<in> set (function_findings t (source_lines source)).
           \<exists>idx < length (source_lines source).
             finding_line f = LineNumber (idx + 1)
             \<and> finding_snippet f = js_trim (source_lines source ! idx))
     \<and> context_window lines idx =
          js_join [CHR 0x0A] (map (\<lambda>j. lines ! j) [idx - 5 ..< min (length lines) (idx + 10)])
     \<and> (j + 5 < idx \<or> idx + 10 \<le> j \<longrightarrow>
          match_line t p fname (lines[j := x]) idx line = match_line t p fname lines idx line)"
proof -
  have a: "i - k < length (source_lines source) \<and> source_lines source ! (i - k) = js_split source ! i \<and> k \<le> i"
    unfolding source_lines_def assms(3)
    using filter_index [of i "js_split source" "\<lambda>l. \<not> comment_line l"] assms(1,2) by simp
  then have "i + 1 - k = (i - k) + 1" by linarith
  then have b: "\<forall>f \<in> set (match_line t p fname (source_lines source) (i - k) (js_split source ! i)).
           finding_line f = LineNumber (i + 1 - k)"
    by (simp add: match_line_number)
  have c: "\<forall>f \<in> set (function_findings t (source_lines source)).
           \<exists>idx < length (source_lines source).
             finding_line f = LineNumber (idx + 1)
             \<and> finding_snippet f = js_trim (source_lines source ! idx)"
    using function_findings_line by blast
  have d: "context_window lines idx =
          js_join [CHR 0x0A] (map (\<lambda>j. lines ! j) [idx - 5 ..< min (length lines) (idx + 10)])"
    by (rule context_window_nth)
  have e: "j + 5 < idx \<or> idx + 10 \<le> j \<longrightarrow>
          match_line t p fname (lines[j := x]) idx line = match_line t p fname lines idx line"
    using match_line_update by blast
  from a b c d e show ?thesis by (intro conjI) simp_all
qed

theorem C8_filtered_line_numbers_witness:
  "source_lines commented_source ! (1 - 1) = js_split commented_source ! 1
   \<and> js_split commented_source ! 1 = ''public fun mint(a: u64) {}''
   \<and> map finding_line (function_findings open_mint_rule (source_lines commented_source)) = [LineNumber 1]"
proof -
  have h1: "1 < length (js_split commented_source)"
    by (simp add: commented_split)
  have h2: "\<not> comment_line (js_split commented_source ! 1)"
    by (simp add: commented_split commented_second)
  have h3: "1 = length (filter comment_line (take 1 (js_split commented_source)))"
    by (simp add: commented_split commented_first)
  from C8_filtered_line_numbers [OF h1 h2 h3]
  have "source_lines commented_source ! (1 - 1) = js_split commented_source ! 1"
    by (rule conjunct1 [OF conjunct2 [OF conjunct2]])
  then show ?thesis
    by (simp add: commented_split commented_findings)
qed

text \<open>
  The claim as stated takes the window through the line 10 after the match. On eleven
  non-comment lines with \<open>mint\<close> on the first and \<open>signer::\<close> on the eleventh, that
  window would hold the evidence; the matcher's window ends one line earlier and
  \<open>signer_check\<close> is reported missing.
\<close>

theorem C8_filtered_line_numbers_counterexample:
  "source_lines (js_join [CHR 0x0A] far_evidence_lines) = far_evidence_lines
   \<and> js_includes (far_evidence_lines ! 0) ''mint''
   \<and> js_includes (far_evidence_lines ! 10) ''signer::''
   \<and> js_includes (spec_context_window far_evidence_lines 0) ''signer::''
   \<and> \<not> js_includes (context_window far_evidence_lines 0) ''signer::''
   \<and> map finding_missing_checks (function_findings open_mint_rule far_evidence_lines)
       = [[''signer_check'']]"
  unfolding far_lines_source far_window far_spec_window far_findings
  by (simp add: far_evidence_lines_def)

subsection \<open>The open-mint scenario\<close>

lemma concat_map_upt_Nil: "(\<And>j. j < n \<Longrightarrow> f j = []) \<Longrightarrow> concat (map f [0..<n]) = []"
  by (induction n) simp_all

lemma concat_map_upt_single:
  assumes "idx < n" and "\<And>j. j < n \<Longrightarrow> j \<noteq> idx \<Longrightarrow> f j = []"
  shows "concat (map f [0..<n]) = f idx"
  using assms
proof (induction n)
  case 0
  then show ?case by simp
next
  case (Suc n)
  show ?case
  proof (cases "idx = n")
    case True
    have "concat (map f [0..<n]) = []"
      using Suc.prems(2) True by (intro concat_map_upt_Nil) simp
    with True show ?thesis by simp
  next
    case False
    with Suc.prems(1) have "idx < n" by simp
    then have "concat (map f [0..<n]) = f idx"
      using Suc.prems(2) by (intro Suc.IH) simp_all
    moreover have "f n = []"
      using Suc.prems(2) [of n] False by simp
    ultimately show ?thesis by simp
  qed
qed

lemma includes_mint: "js_includes line mint_source \<Longrightarrow> js_includes line ''mint''"
proof -
  have "js_includes mint_source ''mint''" by (simp add: mint_source_def)
  then show "js_includes line mint_source \<Longrightarrow> js_includes line ''mint''"
    unfolding js_includes_sublist by (rule sublist_order.order.trans)
qed

lemma mint_source_lines: "source_lines mint_source = [mint_source]"
proof -
  have sp: "js_split mint_source = [mint_source]"
    by (simp add: mint_source_def)
  have tr: "js_trim mint_source = mint_source"
    by (simp add: mint_source_def js_trim_def js_whitespace_def)
  have nc: "\<not> comment_line mint_source"
    unfolding comment_line_def tr by (simp add: mint_source_def)
  show ?thesis by (simp add: source_lines_def sp nc)
qed

lemma mint_source_trim: "js_trim mint_source = mint_source"
  by (simp add: mint_source_def js_trim_def js_whitespace_def)

lemma mint_source_no_evidence:
  "\<not> js_includes mint_source ''tx_context::sender'' \<and> \<not> js_includes mint_source ''signer::''"
  by (simp add: mint_source_def)

lemma scan_open_mint_lines:
  "scanMoveSource (Inr \<lparr> threats = [open_mint_rule] \<rparr>) source
     = function_findings open_mint_rule (source_lines source)"
  by (simp add: scanMoveSource_def scan_rules_def call_flow_findings_def open_mint_rule_def
      open_mint_pattern_def)

lemma second_mint_lines:
  "source_lines (mint_source @ [CHR 0x0A] @ ''fun mint2() {}'') = [mint_source, ''fun mint2() {}'']"
proof -
  have "source_lines ''fun mint2() {}'' = [''fun mint2() {}'']"
    by (simp add: source_lines_def comment_line_def js_trim_def js_whitespace_def)
  then show ?thesis
    by (simp add: source_lines_append mint_source_lines)
qed

lemma signer_import_lines:
  "source_lines (''use std::signer::address_of;'' @ [CHR 0x0A] @ mint_source)
     = [''use std::signer::address_of;'', mint_source]"
proof -
  have "source_lines ''use std::signer::address_of;'' = [''use std::signer::address_of;'']"
    by (simp add: source_lines_def comment_line_def js_trim_def js_whitespace_def)
  then show ?thesis
    using source_lines_append [of "''use std::signer::address_of;''" mint_source]
    by (simp add: mint_source_lines)
qed

lemma includes_mint_self: "js_includes mint_source ''mint''"
  by (simp add: mint_source_def)

text \<open>
  Claim C6, as amended. Against the catalog holding the single rule
  \<open>open_mint_function\<close> (function name \<open>mint\<close>, missing checks \<open>[signer_check]\<close>),
  a source in which one scanned line contains the one-line \<open>mint\<close> function, no other
  scanned line contains \<open>mint\<close>, and the context window of that line contains neither
  \<open>tx_context::sender\<close> nor \<open>signer::\<close>, yields exactly one finding; it carries the
  rule's id, the position of that line and the missing checks \<open>[signer_check]\<close>. The
  source that is exactly the one-line function is such a source.
\<close>

theorem C6_open_mint_scenario:
  assumes "idx < length (source_lines source)"
    and "js_includes (source_lines source ! idx) mint_source"
    and "\<forall>j < length (source_lines source). j \<noteq> idx \<longrightarrow> \<not> js_includes (source_lines source ! j) ''mint''"
    and "\<not> js_includes (context_window (source_lines source) idx) ''tx_context::sender''"
    and "\<not> js_includes (context_window (source_lines source) idx) ''signer::''"
  shows "scanMoveSource
     (Inr \<lparr> threats =
        [\<lparr> threat_id = ''open_mint_function'', threat_severity = sev,
           threat_pattern = Some open_mint_pattern,
           threat_recommendation = recommendation, threat_fix = fx,
           threat_exploit_example = example, threat_cve_reference = cve \<rparr>] \<rparr>)
     source =
   [\<lparr> finding_id = ''open_mint_function'',
      finding_severity = sev,
      finding_line = LineNumber (idx + 1),
      finding_function = ''mint'',
      finding_snippet = js_trim (source_lines source ! idx),
      finding_missing_checks = [''signer_check''],
      finding_recommendation = recommendation,
      finding_fix = fx,
      finding_exploit_example = js_or example ''Unknown'',
      finding_cve_reference = js_or cve ''None'' \<rparr>]"
proof -
  define t where "t = \<lparr> threat_id = ''open_mint_function'', threat_severity = sev,
           threat_pattern = Some open_mint_pattern,
           threat_recommendation = recommendation, threat_fix = fx,
           threat_exploit_example = example, threat_cve_reference = cve \<rparr>"
  define lines where "lines = source_lines source"
  have p: "threat_pattern t = Some open_mint_pattern" by (simp add: t_def)
  have n: "function_name open_mint_pattern = Some ''mint''" by (simp add: open_mint_pattern_def)
  have other: "match_line t open_mint_pattern ''mint'' lines j (lines ! j) = []"
    if "j < length lines" "j \<noteq> idx" for j
    using assms(3) that by (simp add: match_line_def lines_def)
  have miss: "line_missing (missing_checks open_mint_pattern) (context_window lines idx) = [''signer_check'']"
    using assms(4,5) by (simp add: open_mint_pattern_def line_missing_def line_check_def lines_def)
  have here: "match_line t open_mint_pattern ''mint'' lines idx (lines ! idx) =
   [\<lparr> finding_id = ''open_mint_function'',
      finding_severity = sev,
      finding_line = LineNumber (idx + 1),
      finding_function = ''mint'',
      finding_snippet = js_trim (lines ! idx),
      finding_missing_checks = [''signer_check''],
      finding_recommendation = recommendation,
      finding_fix = fx,
      finding_exploit_example = js_or example ''Unknown'',
      finding_cve_reference = js_or cve ''None'' \<rparr>]"
    using includes_mint [OF assms(2)] by (simp add: match_line_def miss lines_def [symmetric] t_def)
  have "function_findings t lines = match_line t open_mint_pattern ''mint'' lines idx (lines ! idx)"
    unfolding function_findings_by_index [OF p n, simplified]
    using assms(1) other by (intro concat_map_upt_single) (simp_all add: lines_def)
  moreover have "call_flow_findings t source = []"
    by (simp add: call_flow_findings_def t_def open_mint_pattern_def)
  ultimately show ?thesis
    unfolding scanMoveSource_def scan_rules_def Let_def t_def [symmetric] lines_def [symmetric]
    by (simp add: here)
qed

theorem C6_open_mint_scenario_witness:
  "scanMoveSource (Inr \<lparr> threats = [open_mint_rule] \<rparr>) mint_source =
   [\<lparr> finding_id = ''open_mint_function'',
      finding_severity = ''high'',
      finding_line = LineNumber 1,
      finding_function = ''mint'',
      finding_snippet = mint_source,
      finding_missing_checks = [''signer_check''],
      finding_recommendation = ''Restrict minting to the owner'',
      finding_fix = ''add a signer check'',
      finding_exploit_example = ''Unknown'',
      finding_cve_reference = ''None'' \<rparr>]"
proof -
  have h1: "0 < length (source_lines mint_source)"
    by (simp add: mint_source_lines)
  have h2: "js_includes (source_lines mint_source ! 0) mint_source"
    by (simp add: mint_source_lines js_includes_sublist)
  have h3: "\<forall>j < length (source_lines mint_source). j \<noteq> 0 \<longrightarrow>
      \<not> js_includes (source_lines mint_source ! j) ''mint''"
    by (simp add: mint_source_lines)
  have w: "context_window (source_lines mint_source) 0 = mint_source"
    by (simp add: mint_source_lines context_window_def js_slice_def)
  have h4: "\<not> js_includes (context_window (source_lines mint_source) 0) ''tx_context::sender''"
    unfolding w using mint_source_no_evidence by (rule conjunct1)
  have h5: "\<not> js_includes (context_window (source_lines mint_source) 0) ''signer::''"
    unfolding w using mint_source_no_evidence by (rule conjunct2)
  show ?thesis
    using C6_open_mint_scenario [OF h1 h2 h3 h4 h5, of "''high''" "''Restrict minting to the owner''"
        "''add a signer check''" None None]
    by (simp add: open_mint_rule_def mint_source_lines mint_source_trim)
qed

text \<open>
  The claim as stated speaks of any input containing the function. A second line with
  \<open>mint\<close> in it adds a finding, and a line with \<open>signer::\<close> in the window removes the
  only one.
\<close>

theorem C6_open_mint_scenario_counterexample:
  "js_includes (mint_source @ [CHR 0x0A] @ ''fun mint2() {}'') mint_source
   \<and> map finding_line (scanMoveSource (Inr \<lparr> threats = [open_mint_rule] \<rparr>)
         (mint_source @ [CHR 0x0A] @ ''fun mint2() {}'')) = [LineNumber 1, LineNumber 2]
   \<and> js_includes (''use std::signer::address_of;'' @ [CHR 0x0A] @ mint_source) mint_source
   \<and> scanMoveSource (Inr \<lparr> threats = [open_mint_rule] \<rparr>)
         (''use std::signer::address_of;'' @ [CHR 0x0A] @ mint_source) = []"
proof -
  have a: "js_includes (mint_source @ [CHR 0x0A] @ ''fun mint2() {}'') mint_source"
    unfolding js_includes_sublist using sublist_appendI [of mint_source "[]"] by simp
  have c: "js_includes (''use std::signer::address_of;'' @ [CHR 0x0A] @ mint_source) mint_source"
    unfolding js_includes_sublist
    using sublist_appendI [of mint_source "''use std::signer::address_of;'' @ [CHR 0x0A]" "[]"] by simp
  have e0: "\<not> js_includes (context_window [mint_source, ''fun mint2() {}''] 0) ''tx_context::sender''
        \<and> \<not> js_includes (context_window [mint_source, ''fun mint2() {}''] 0) ''signer::''"
    by (simp add: context_window_def js_slice_def mint_source_def)
  have e1: "\<not> js_includes (context_window [mint_source, ''fun mint2() {}''] (Suc 0)) ''tx_context::sender''
        \<and> \<not> js_includes (context_window [mint_source, ''fun mint2() {}''] (Suc 0)) ''signer::''"
    by (simp add: context_window_def js_slice_def mint_source_def)
  have b: "map finding_line (scanMoveSource (Inr \<lparr> threats = [open_mint_rule] \<rparr>)
         (mint_source @ [CHR 0x0A] @ ''fun mint2() {}'')) = [LineNumber 1, LineNumber 2]"
    unfolding scan_open_mint_lines second_mint_lines
    unfolding function_findings_def open_mint_rule_def open_mint_pattern_def
    by (simp add: match_line_def Let_def includes_mint_self e0 e1 line_missing_def line_check_def)
  have s: "js_includes (context_window [''use std::signer::address_of;'', mint_source] (Suc 0)) ''signer::''"
    by (simp add: context_window_def js_slice_def)
  have d: "scanMoveSource (Inr \<lparr> threats = [open_mint_rule] \<rparr>)
         (''use std::signer::address_of;'' @ [CHR 0x0A] @ mint_source) = []"
    unfolding scan_open_mint_lines signer_import_lines
    unfolding function_findings_def open_mint_rule_def open_mint_pattern_def
    by (simp add: match_line_def Let_def includes_mint_self s line_missing_def line_check_def)
  from a b c d show ?thesis by (intro conjI)
qed

end
